theory Spec2Isabelle
  imports Complex_Main
begin

section \<open>Data model\<close>

text \<open>
  Python exceptions that the modelled code can raise. Every explicit \<^verbatim>\<open>raise\<close> of the
  source is a \<^verbatim>\<open>ValueError\<close>; \<^verbatim>\<open>IndexError\<close> comes from indexing or popping an empty
  sequence, \<^verbatim>\<open>AttributeError\<close> from reading an attribute of an object that is not of
  the expected class (for instance \<^verbatim>\<open>None\<close>).
\<close>

datatype error = ValueError | IndexError | AttributeError

text \<open>\<^verbatim>\<open>process.py\<close>: class \<^verbatim>\<open>ProcessStates\<close>.\<close>

datatype ProcessStates = NEW | READY | RUNNING | TERMINATED

text \<open>
  \<^verbatim>\<open>process.py\<close>: class \<^verbatim>\<open>Process\<close>. The fields are the private attributes of the
  class, named as the read-only properties that expose them. Times are Python floats,
  idealised here as real numbers.
\<close>

record Process =
  process_id :: int
  arrival_time :: real
  process_state :: ProcessStates
  service_time :: real
  remaining_time :: real
  execution_times :: "(real \<times> real) list"

text \<open>
  A requested duration: a finite float or \<^verbatim>\<open>math.inf\<close>, the default quantum of the
  engine (batch mode).
\<close>

datatype duration = Finite real | Infinite

section \<open>Process operations\<close>

text \<open>\<^verbatim>\<open>Process.__init__\<close>: three guards in source order, then the initial fields.\<close>

definition Process_init :: "int \<Rightarrow> real \<Rightarrow> real \<Rightarrow> error + Process" where
  "Process_init pid arrival service =
     (if \<not> (pid \<ge> 0) then Inl ValueError
      else if \<not> (arrival \<ge> 0) then Inl ValueError
      else if \<not> (service > 0) then Inl ValueError
      else Inr \<lparr> process_id = pid, arrival_time = arrival, process_state = NEW,
                 service_time = service, remaining_time = service,
                 execution_times = [] \<rparr>)"

text \<open>\<^verbatim>\<open>min(quantum, self._remaining_time)\<close> with a possibly infinite first argument.\<close>

fun min_duration :: "duration \<Rightarrow> real \<Rightarrow> real" where
  "min_duration Infinite r = r"
| "min_duration (Finite d) r = (if r < d then r else d)"

text \<open>
  \<^verbatim>\<open>Process.run_for(quantum, cur_time)\<close>. The method has no guard and no
  \<^verbatim>\<open>raise\<close>; it returns the time actually run together with the mutated object.
  The bare expression \<^verbatim>\<open>ProcessStates.READY\<close> on line 140 of the source has no effect.
\<close>

definition run_for :: "Process \<Rightarrow> duration \<Rightarrow> real \<Rightarrow> real \<times> Process" where
  "run_for self quantum cur_time =
     (let actually_run_for = min_duration quantum (remaining_time self)
      in (actually_run_for,
          self \<lparr> remaining_time := remaining_time self - actually_run_for,
                 execution_times :=
                   execution_times self @ [(cur_time, cur_time + actually_run_for)] \<rparr>))"

text \<open>
  \<^verbatim>\<open>Process.departure_time\<close>: the guard on the state, then
  \<^verbatim>\<open>self._execution_times[-1][1]\<close>, which raises \<^verbatim>\<open>IndexError\<close> on an empty list.
\<close>

definition departure_time :: "Process \<Rightarrow> error + real" where
  "departure_time self =
     (if process_state self \<noteq> TERMINATED then Inl ValueError
      else if execution_times self = [] then Inl IndexError
      else Inr (snd (last (execution_times self))))"




section \<open>Events and the event queue\<close>

text \<open>\<^verbatim>\<open>event.py\<close>: class \<^verbatim>\<open>EventTypes\<close>.\<close>

datatype EventTypes = PROC_ARRIVES | PROC_CPU_REQ | PROC_CPU_DONE

text \<open>
  \<^verbatim>\<open>event.py\<close>: class \<^verbatim>\<open>Event\<close>. The attribute \<^verbatim>\<open>process_id\<close> of an event is
  the field \<open>event_process_id\<close>, since a process has a field of the same name.
\<close>

record Event =
  event_type :: EventTypes
  event_time :: real
  event_process_id :: int

text \<open>\<^verbatim>\<open>Event.__init__\<close>: the guards on the time and on the id.\<close>

definition Event_init :: "int \<Rightarrow> EventTypes \<Rightarrow> real \<Rightarrow> error + Event" where
  "Event_init pid ty tm =
     (if \<not> (tm \<ge> 0) then Inl ValueError
      else if \<not> (pid \<ge> 0) then Inl ValueError
      else Inr \<lparr> event_type = ty, event_time = tm, event_process_id = pid \<rparr>)"

text \<open>\<^verbatim>\<open>Event.__lt__\<close>: compares the event times only.\<close>

definition Event_lt :: "Event \<Rightarrow> Event \<Rightarrow> bool" where
  "Event_lt self other = (event_time self < event_time other)"

text \<open>
  \<^verbatim>\<open>bisect.insort\<close> of the Python standard library, as \<^verbatim>\<open>des.py\<close> calls it on the
  deque of events: a binary search with \<^verbatim>\<open>x < a[mid]\<close> between \<^verbatim>\<open>lo\<close> and
  \<^verbatim>\<open>hi\<close>, then \<^verbatim>\<open>a.insert(lo, x)\<close>.
\<close>

function bisect_right :: "Event list \<Rightarrow> Event \<Rightarrow> nat \<Rightarrow> nat \<Rightarrow> nat" where
  "bisect_right a x lo hi =
     (if lo < hi then
        (let mid = (lo + hi) div 2
         in if Event_lt x (a ! mid) then bisect_right a x lo mid
            else bisect_right a x (mid + 1) hi)
      else lo)"
  by pat_completeness auto
termination
  by (relation "measure (\<lambda>(a, x, lo, hi). hi - lo)") auto

declare bisect_right.simps [simp del]

text \<open>\<^verbatim>\<open>insort\<close> is the library's alias of \<^verbatim>\<open>insort_right\<close>.\<close>

definition insort_right :: "Event list \<Rightarrow> Event \<Rightarrow> Event list" where
  "insort_right a x = (let lo = bisect_right a x 0 (length a) in take lo a @ [x] @ drop lo a)"

text \<open>\<^verbatim>\<open>deque.popleft()\<close>: raises \<^verbatim>\<open>IndexError\<close> on an empty deque.\<close>

definition popleft :: "Event list \<Rightarrow> error + (Event \<times> Event list)" where
  "popleft q = (case q of [] \<Rightarrow> Inl IndexError | e # es \<Rightarrow> Inr (e, es))"

text \<open>
  The two operations the engine performs on its queue, and a sequence of them run from a
  given queue. \<open>queue_history\<close> lists the queue after each operation, up to the first
  one that raises.
\<close>

datatype queue_op = Insert Event | PopEarliest

definition queue_apply :: "queue_op \<Rightarrow> Event list \<Rightarrow> error + Event list" where
  "queue_apply operation q =
     (case operation of
        Insert e \<Rightarrow> Inr (insort_right q e)
      | PopEarliest \<Rightarrow> (case popleft q of Inl err \<Rightarrow> Inl err | Inr (e, q') \<Rightarrow> Inr q'))"

fun queue_history :: "Event list \<Rightarrow> queue_op list \<Rightarrow> Event list list" where
  "queue_history q [] = []"
| "queue_history q (operation # ops) =
     (case queue_apply operation q of
        Inl err \<Rightarrow> []
      | Inr q' \<Rightarrow> q' # queue_history q' ops)"

text \<open>A linear scan of the queue is non-decreasing in the event time.\<close>

definition scan_nondecreasing :: "Event list \<Rightarrow> bool" where
  "scan_nondecreasing q = sorted (map event_time q)"

section \<open>The engine\<close>

text \<open>
  \<^verbatim>\<open>des.py\<close>: class \<^verbatim>\<open>SchedulerDES\<close>. Python compares processes by identity
  (\<^verbatim>\<open>Process\<close> defines no \<^verbatim>\<open>__eq__\<close>), and the engine, the process list and the policy
  share the process objects. So the objects live in a store, a list indexed by
  reference, and \<open>processes\<close> and \<open>process_on_cpu\<close> hold references. The store is
  carried in the field \<open>store\<close>; it is not an attribute of the class. A reference
  outside the store stands for an object that is not a \<^verbatim>\<open>Process\<close>, on which reading
  a process attribute raises \<^verbatim>\<open>AttributeError\<close>.

  The fields of a subclass (the bookkeeping of a policy) are the extension part of the
  record.
\<close>

record SchedulerDES =
  num_processes :: int
  arrivals_per_time_unit :: real
  avg_cpu_burst_time :: real
  context_switch_time :: real
  quantum :: duration
  process_on_cpu :: "nat option"
  time :: real
  events_queue :: "Event list"
  processes :: "nat list"
  store :: "Process list"

text \<open>\<^verbatim>\<open>quantum > 0.0\<close> for a float that may be \<^verbatim>\<open>math.inf\<close>.\<close>

fun duration_positive :: "duration \<Rightarrow> bool" where
  "duration_positive Infinite = True"
| "duration_positive (Finite d) = (d > 0)"

text \<open>
  \<^verbatim>\<open>SchedulerDES.__init__\<close>: the five guards in source order. The \<^verbatim>\<open>isinstance\<close>
  tests hold by typing. \<open>objs\<close> is the object store in which the engine is created.
\<close>

definition SchedulerDES_init ::
  "Process list \<Rightarrow> int \<Rightarrow> real \<Rightarrow> real \<Rightarrow> real \<Rightarrow> duration \<Rightarrow> error + SchedulerDES" where
  "SchedulerDES_init objs n arrivals burst switch q =
     (if \<not> (n > 0) then Inl ValueError
      else if \<not> (arrivals > 0) then Inl ValueError
      else if \<not> (burst \<ge> 0) then Inl ValueError
      else if \<not> (switch \<ge> 0) then Inl ValueError
      else if \<not> duration_positive q then Inl ValueError
      else Inr \<lparr> num_processes = n, arrivals_per_time_unit = arrivals,
                 avg_cpu_burst_time = burst, context_switch_time = switch, quantum = q,
                 process_on_cpu = None, time = 0, events_queue = [], processes = [],
                 store = objs \<rparr>)"

text \<open>\<^verbatim>\<open>SchedulerDES.__reset\<close>.\<close>

definition reset :: "'a SchedulerDES_scheme \<Rightarrow> 'a SchedulerDES_scheme" where
  "reset self = self \<lparr> time := 0, events_queue := [], processes := [], process_on_cpu := None \<rparr>"

text \<open>
  \<^verbatim>\<open>SchedulerDES.generate_and_init\<close>. \<open>samples k\<close> is the \<open>k\<close>-th standard
  exponential variate that numpy's generator yields after \<^verbatim>\<open>random.seed(seed)\<close>;
  \<^verbatim>\<open>random.exponential(scale)\<close> returns the next variate times \<^verbatim>\<open>scale\<close>. Iteration
  \<open>i\<close> draws the inter-arrival time first, then the service time. The new
  \<^verbatim>\<open>Process\<close> object is allocated at the end of the store.
\<close>

fun generate_loop ::
  "(nat \<Rightarrow> real) \<Rightarrow> nat list \<Rightarrow> real \<Rightarrow> 'a SchedulerDES_scheme \<Rightarrow> error + 'a SchedulerDES_scheme" where
  "generate_loop samples [] cur_time self = Inr self"
| "generate_loop samples (i # rest) cur_time self =
     (let cur_time' = cur_time + (1 / arrivals_per_time_unit self) * samples (2 * i)
      in case Process_init (int i) cur_time' (avg_cpu_burst_time self * samples (2 * i + 1)) of
           Inl e \<Rightarrow> Inl e
         | Inr new_process \<Rightarrow>
             (case Event_init (process_id new_process) PROC_ARRIVES cur_time' of
                Inl e \<Rightarrow> Inl e
              | Inr new_event \<Rightarrow>
                  generate_loop samples rest cur_time'
                    (self \<lparr> store := store self @ [new_process],
                            processes := processes self @ [length (store self)],
                            events_queue := insort_right (events_queue self) new_event \<rparr>)))"

definition generate_and_init ::
  "(nat \<Rightarrow> real) \<Rightarrow> 'a SchedulerDES_scheme \<Rightarrow> error + 'a SchedulerDES_scheme" where
  "generate_and_init samples self =
     generate_loop samples [0 ..< nat (num_processes self)] 0 (reset self)"

text \<open>\<^verbatim>\<open>SchedulerDES.next_event_time\<close>: the first event time after the clock.\<close>

fun next_event_loop :: "real \<Rightarrow> Event list \<Rightarrow> duration" where
  "next_event_loop now [] = Infinite"
| "next_event_loop now (event # rest) =
     (if event_time event > now then Finite (event_time event) else next_event_loop now rest)"

definition next_event_time :: "'a SchedulerDES_scheme \<Rightarrow> duration" where
  "next_event_time self = next_event_loop (time self) (events_queue self)"

text \<open>\<^verbatim>\<open>SchedulerDES.__update_process_states\<close>: the loop over \<^verbatim>\<open>self.processes\<close>.\<close>

fun update_process_states_loop ::
  "real \<Rightarrow> nat list \<Rightarrow> Process list \<Rightarrow> error + Process list" where
  "update_process_states_loop now [] objs = Inr objs"
| "update_process_states_loop now (r # rest) objs =
     (if \<not> r < length objs then Inl AttributeError
      else update_process_states_loop now rest
             (if arrival_time (objs ! r) \<le> now \<and> process_state (objs ! r) = NEW
              then objs [r := (objs ! r) \<lparr> process_state := READY \<rparr>]
              else objs))"

definition update_process_states ::
  "'a SchedulerDES_scheme \<Rightarrow> error + 'a SchedulerDES_scheme" where
  "update_process_states self =
     (case update_process_states_loop (time self) (processes self) (store self) of
        Inl e \<Rightarrow> Inl e
      | Inr objs \<Rightarrow> Inr (self \<lparr> store := objs \<rparr>))"

text \<open>
  \<^verbatim>\<open>Process.__str__\<close> reads \<^verbatim>\<open>departure_time\<close> of a terminated process, so it can
  raise. \<^verbatim>\<open>run\<close> evaluates \<^verbatim>\<open>str(self.process_on_cpu)\<close> while it builds the message
  of line 187, whatever the logging level, and \<^verbatim>\<open>str(process_to_run)\<close> while it builds
  the message of line 190; \<^verbatim>\<open>str\<close> of \<^verbatim>\<open>None\<close> or of an object of another class
  does not raise.
\<close>

definition str_Process :: "Process \<Rightarrow> error + unit" where
  "str_Process p =
     (if process_state p = TERMINATED
      then (case departure_time p of Inl e \<Rightarrow> Inl e | Inr d \<Rightarrow> Inr ())
      else Inr ())"

definition str_process_on_cpu :: "'a SchedulerDES_scheme \<Rightarrow> error + unit" where
  "str_process_on_cpu self =
     (case process_on_cpu self of
        None \<Rightarrow> Inr ()
      | Some r \<Rightarrow> (if r < length (store self) then str_Process (store self ! r) else Inr ()))"

text \<open>
  The policy hooks \<^verbatim>\<open>scheduler_func\<close> and \<^verbatim>\<open>dispatcher_func\<close>, which a subclass
  overrides. They are methods of the engine object: they read and may mutate the whole
  engine, the store included. \<^verbatim>\<open>scheduler_func\<close> returns a process object or
  \<^verbatim>\<open>None\<close>, \<^verbatim>\<open>dispatcher_func\<close> an event or \<^verbatim>\<open>None\<close>; either may raise.
\<close>

type_synonym 'a scheduler =
  "'a SchedulerDES_scheme \<Rightarrow> Event \<Rightarrow> error + (nat option \<times> 'a SchedulerDES_scheme)"

type_synonym 'a dispatcher =
  "'a SchedulerDES_scheme \<Rightarrow> nat \<Rightarrow> error + (Event option \<times> 'a SchedulerDES_scheme)"

text \<open>The hooks of the base class: the body is \<^verbatim>\<open>pass\<close>, which returns \<^verbatim>\<open>None\<close>.\<close>

definition scheduler_func :: "'a scheduler" where
  "scheduler_func self cur_event = Inr (None, self)"

definition dispatcher_func :: "'a dispatcher" where
  "dispatcher_func self cur_process = Inr (None, self)"

text \<open>
  One iteration of the \<^verbatim>\<open>while\<close> loop of \<^verbatim>\<open>SchedulerDES.run\<close>, in four stages.
  The dumps of the queue and of the process table are skipped: they are guarded by
  \<^verbatim>\<open>isEnabledFor\<close>, and the logging level is \<^verbatim>\<open>WARNING\<close> as \<^verbatim>\<open>main.py\<close> sets it.

  \<open>advance\<close>: pop the next event, advance the clock to it if it is later, update the
  process states (lines 169 to 176).
\<close>

definition advance :: "'a SchedulerDES_scheme \<Rightarrow> error + (Event \<times> 'a SchedulerDES_scheme)" where
  "advance self =
     (case popleft (events_queue self) of
        Inl e \<Rightarrow> Inl e
      | Inr (cur_event, q) \<Rightarrow>
          (let s1 = self \<lparr> events_queue := q \<rparr>;
               s2 = (if time s1 < event_time cur_event
                     then s1 \<lparr> time := event_time cur_event \<rparr> else s1)
           in case update_process_states s2 of
                Inl e \<Rightarrow> Inl e
              | Inr s3 \<Rightarrow> Inr (cur_event, s3)))"

text \<open>
  \<open>select\<close>: run the scheduler hook and check its answer (lines 183 to 190). It yields
  the selected process and the engine as the hook left it. The message of the
  \<^verbatim>\<open>ValueError\<close> of line 189 is built with \<^verbatim>\<open>str(process_to_run)\<close>, which raises
  first when that process is terminated without an execution interval.
\<close>

definition select ::
  "'a scheduler \<Rightarrow> 'a SchedulerDES_scheme \<Rightarrow> error + (nat \<times> 'a SchedulerDES_scheme)" where
  "select sched self =
     (case advance self of
        Inl e \<Rightarrow> Inl e
      | Inr (cur_event, s) \<Rightarrow>
          (case sched s cur_event of
             Inl e \<Rightarrow> Inl e
           | Inr (None, s') \<Rightarrow> Inl ValueError
           | Inr (Some process_to_run, s') \<Rightarrow>
               (if \<not> process_to_run < length (store s') then Inl AttributeError
                else case str_process_on_cpu s' of
                       Inl e \<Rightarrow> Inl e
                     | Inr u \<Rightarrow>
                         (if process_state (store s' ! process_to_run) \<noteq> READY
                          then (case str_Process (store s' ! process_to_run) of
                                  Inl e \<Rightarrow> Inl e
                                | Inr u' \<Rightarrow> Inl ValueError)
                          else Inr (process_to_run, s')))))"

text \<open>
  \<open>context_switch\<close>: lines 194 to 196. The comparison is the identity of objects, and
  \<^verbatim>\<open>None\<close> differs from every process.
\<close>

definition context_switch :: "nat \<Rightarrow> 'a SchedulerDES_scheme \<Rightarrow> 'a SchedulerDES_scheme" where
  "context_switch process_to_run self =
     (if Some process_to_run \<noteq> process_on_cpu self
      then self \<lparr> process_on_cpu := Some process_to_run,
                  time := time self + context_switch_time self \<rparr>
      else self)"

text \<open>
  \<open>dispatch\<close>: run the dispatcher hook, queue its event unless it is
  \<^verbatim>\<open>PROC_CPU_DONE\<close>, and set the clock to the time of that event (lines 199 to 205).
\<close>

definition dispatch ::
  "'a dispatcher \<Rightarrow> nat \<Rightarrow> 'a SchedulerDES_scheme \<Rightarrow> error + 'a SchedulerDES_scheme" where
  "dispatch disp process_to_run self =
     (case disp self process_to_run of
        Inl e \<Rightarrow> Inl e
      | Inr (None, s') \<Rightarrow> Inl AttributeError
      | Inr (Some ret_event, s') \<Rightarrow>
          Inr ((if event_type ret_event \<noteq> PROC_CPU_DONE
                then s' \<lparr> events_queue := insort_right (events_queue s') ret_event \<rparr>
                else s') \<lparr> time := event_time ret_event \<rparr>))"

definition iteration ::
  "'a scheduler \<Rightarrow> 'a dispatcher \<Rightarrow> 'a SchedulerDES_scheme \<Rightarrow> error + 'a SchedulerDES_scheme" where
  "iteration sched disp self =
     (case select sched self of
        Inl e \<Rightarrow> Inl e
      | Inr (process_to_run, s) \<Rightarrow> dispatch disp process_to_run (context_switch process_to_run s))"

text \<open>
  The loop \<^verbatim>\<open>while self.events_queue\<close>. A policy can feed the queue for ever, so the
  loop takes a bound on the number of iterations: \<open>None\<close> says that the bound was
  reached with events still queued, \<open>Some (Inl e)\<close> that the run raised \<open>e\<close>,
  \<open>Some (Inr s)\<close> that the loop ended normally with the engine in \<open>s\<close>.
\<close>

fun run_loop ::
  "nat \<Rightarrow> 'a scheduler \<Rightarrow> 'a dispatcher \<Rightarrow> 'a SchedulerDES_scheme
     \<Rightarrow> (error + 'a SchedulerDES_scheme) option" where
  "run_loop n sched disp self =
     (if events_queue self = [] then Some (Inr self)
      else case n of
             0 \<Rightarrow> None
           | Suc m \<Rightarrow>
               (case iteration sched disp self of
                  Inl e \<Rightarrow> Some (Inl e)
                | Inr s \<Rightarrow> run_loop m sched disp s))"

declare run_loop.simps [simp del]

text \<open>The engine at the start of each of the first \<open>n\<close> iterations of the loop.\<close>

fun loop_states ::
  "nat \<Rightarrow> 'a scheduler \<Rightarrow> 'a dispatcher \<Rightarrow> 'a SchedulerDES_scheme
     \<Rightarrow> 'a SchedulerDES_scheme list" where
  "loop_states 0 sched disp self = []"
| "loop_states (Suc m) sched disp self =
     (if events_queue self = [] then []
      else self # (case iteration sched disp self of
                     Inl e \<Rightarrow> []
                   | Inr s \<Rightarrow> loop_states m sched disp s))"

text \<open>\<^verbatim>\<open>SchedulerDES.run(seed)\<close>: generate the workload, then loop.\<close>

definition run ::
  "(nat \<Rightarrow> real) \<Rightarrow> nat \<Rightarrow> 'a scheduler \<Rightarrow> 'a dispatcher \<Rightarrow> 'a SchedulerDES_scheme
     \<Rightarrow> (error + 'a SchedulerDES_scheme) option" where
  "run samples n sched disp self =
     (case generate_and_init samples self of
        Inl e \<Rightarrow> Some (Inl e)
      | Inr s \<Rightarrow> run_loop n sched disp s)"

definition run_states ::
  "(nat \<Rightarrow> real) \<Rightarrow> nat \<Rightarrow> 'a scheduler \<Rightarrow> 'a dispatcher \<Rightarrow> 'a SchedulerDES_scheme
     \<Rightarrow> 'a SchedulerDES_scheme list" where
  "run_states samples n sched disp self =
     (case generate_and_init samples self of
        Inl e \<Rightarrow> []
      | Inr s \<Rightarrow> loop_states n sched disp s)"

text \<open>
  What a run shows: the clock at the start of each iteration, the events in the order
  in which the loop pops them, and the turnaround and waiting time of each process
  (the summands of \<^verbatim>\<open>print_statistics\<close>).
\<close>

definition clock_trace :: "'a SchedulerDES_scheme list \<Rightarrow> real list" where
  "clock_trace states = map time states"





text \<open>
  \<open>relocate old s\<close> is the engine \<open>s\<close> in a store that holds the objects \<open>old\<close>
  before its own: every reference of the engine is moved by the number of these objects.
\<close>

definition relocate :: "Process list \<Rightarrow> 'a SchedulerDES_scheme \<Rightarrow> 'a SchedulerDES_scheme" where
  "relocate old s =
     s \<lparr> store := old @ store s,
         processes := map (\<lambda>r. length old + r) (processes s),
         process_on_cpu := map_option (\<lambda>r. length old + r) (process_on_cpu s) \<rparr>"

section \<open>What a policy may be asked to respect\<close>

text \<open>
  The hooks can do anything to the engine. \<open>clock_contract\<close> says that the scheduler
  hook does not move the clock back, that the event returned by the dispatcher hook is
  not earlier than the clock at the call, and that neither hook makes the context
  switch time negative. \<open>scheduler_keeps_cpu\<close> says that the scheduler hook leaves
  \<^verbatim>\<open>process_on_cpu\<close> to the engine. \<open>address_oblivious\<close> says that the hooks do
  the same whatever the addresses of the process objects are and whatever objects earlier
  runs left in the store, which they leave alone.
\<close>

definition clock_contract :: "'a scheduler \<Rightarrow> 'a dispatcher \<Rightarrow> bool" where
  "clock_contract sched disp =
     ((\<forall>s ev r s'. sched s ev = Inr (r, s') \<longrightarrow>
          time s \<le> time s' \<and> (0 \<le> context_switch_time s \<longrightarrow> 0 \<le> context_switch_time s')) \<and>
      (\<forall>s r ev s'. disp s r = Inr (Some ev, s') \<longrightarrow>
          time s \<le> event_time ev \<and> (0 \<le> context_switch_time s \<longrightarrow> 0 \<le> context_switch_time s')))"

definition scheduler_keeps_cpu :: "'a scheduler \<Rightarrow> bool" where
  "scheduler_keeps_cpu sched =
     (\<forall>s ev r s'. sched s ev = Inr (r, s') \<longrightarrow> process_on_cpu s' = process_on_cpu s)"


section \<open>Policies and inputs used as examples\<close>

text \<open>
  \<^verbatim>\<open>schedulers.py\<close>, \<^verbatim>\<open>FCFS.scheduler_func\<close>:
  \<^verbatim>\<open>return self.processes[cur_event.process_id]\<close>, with Python's indexing of a list
  (a negative index counts from the end, an index out of range raises).
\<close>

definition FCFS_scheduler_func :: "'a scheduler" where
  "FCFS_scheduler_func self cur_event =
     (let n = int (length (processes self));
          i = event_process_id cur_event;
          j = (if i < 0 then n + i else i)
      in if 0 \<le> j \<and> j < n then Inr (Some (processes self ! nat j), self)
         else Inl IndexError)"

text \<open>
  \<open>grabbing_scheduler_func\<close> selects as \<^verbatim>\<open>FCFS.scheduler_func\<close> does and records
  its choice in \<^verbatim>\<open>self.process_on_cpu\<close> itself.
\<close>

definition grabbing_scheduler_func :: "'a scheduler" where
  "grabbing_scheduler_func self cur_event =
     (case FCFS_scheduler_func self cur_event of
        Inl e \<Rightarrow> Inl e
      | Inr (chosen, s) \<Rightarrow> Inr (chosen, s \<lparr> process_on_cpu := chosen \<rparr>))"

text \<open>
  The dispatchers of \<^verbatim>\<open>schedulers.py\<close> are stubs, so the examples use three
  dispatchers written against the hook's interface. \<open>quantum_dispatcher\<close> follows the
  contract of the hook: it marks the process \<^verbatim>\<open>RUNNING\<close>, runs it for the quantum
  from the current time, refuses a negative run, and returns \<^verbatim>\<open>PROC_CPU_DONE\<close> with
  the process \<^verbatim>\<open>TERMINATED\<close> when no time remains, \<^verbatim>\<open>PROC_CPU_REQ\<close> with the
  process \<^verbatim>\<open>READY\<close> otherwise.
\<close>

definition quantum_dispatcher :: "'a dispatcher" where
  "quantum_dispatcher self cur_process =
     (let p = store self ! cur_process;
          (ran, p') = run_for (p \<lparr> process_state := RUNNING \<rparr>) (quantum self) (time self)
      in if ran < 0 then Inl ValueError
         else if remaining_time p' \<le> 0
         then Inr (Some \<lparr> event_type = PROC_CPU_DONE, event_time = time self + ran,
                           event_process_id = process_id p \<rparr>,
                   self \<lparr> store := (store self) [cur_process := p' \<lparr> process_state := TERMINATED \<rparr>] \<rparr>)
         else Inr (Some \<lparr> event_type = PROC_CPU_REQ, event_time = time self + ran,
                           event_process_id = process_id p \<rparr>,
                   self \<lparr> store := (store self) [cur_process := p' \<lparr> process_state := READY \<rparr>] \<rparr>))"

text \<open>
  \<open>idle_dispatcher\<close> reports \<^verbatim>\<open>PROC_CPU_DONE\<close> at the current time and leaves the
  process as it is.
\<close>

definition idle_dispatcher :: "'a dispatcher" where
  "idle_dispatcher self cur_process =
     Inr (Some \<lparr> event_type = PROC_CPU_DONE, event_time = time self,
                  event_process_id = process_id (store self ! cur_process) \<rparr>, self)"

text \<open>
  \<open>rewinding_dispatcher\<close> leaves the process as it is and returns a
  \<^verbatim>\<open>PROC_CPU_REQ\<close> event at time 5 while the clock is before 2, at time 0 afterwards.
\<close>

definition rewinding_dispatcher :: "'a dispatcher" where
  "rewinding_dispatcher self cur_process =
     Inr (Some \<lparr> event_type = PROC_CPU_REQ,
                  event_time = (if time self < 2 then 5 else 0),
                  event_process_id = process_id (store self ! cur_process) \<rparr>, self)"

text \<open>A generator whose every variate is 1, and one that alternates 1 and 2.\<close>

definition unit_samples :: "nat \<Rightarrow> real" where
  "unit_samples k = 1"

definition alternating_samples :: "nat \<Rightarrow> real" where
  "alternating_samples k = (if even k then 1 else 2)"

text \<open>A process with five units of work left, a terminated one, and events at a given time.\<close>

definition sample_process :: Process where
  "sample_process =
     \<lparr> process_id = 0, arrival_time = 1, process_state = READY, service_time = 5,
       remaining_time = 5, execution_times = [] \<rparr>"

definition finished_process :: Process where
  "finished_process =
     \<lparr> process_id = 1, arrival_time = 0, process_state = TERMINATED, service_time = 3,
       remaining_time = 0, execution_times = [(1, 2), (4, 6)] \<rparr>"

text \<open>
  A process as \<^verbatim>\<open>Process(process_id=2, arrival_time=0, service_time=3)\<close> builds it,
  after \<^verbatim>\<open>p.process_state = ProcessStates.TERMINATED\<close>.
\<close>

definition unrun_process :: Process where
  "unrun_process =
     \<lparr> process_id = 2, arrival_time = 0, process_state = TERMINATED, service_time = 3,
       remaining_time = 3, execution_times = [] \<rparr>"

definition event_at :: "real \<Rightarrow> Event" where
  "event_at t = \<lparr> event_type = PROC_CPU_REQ, event_time = t, event_process_id = 0 \<rparr>"

text \<open>
  Engines as \<^verbatim>\<open>SchedulerDES(...)\<close> builds them in an empty store: \<open>engine n b c q\<close>
  has \<open>n\<close> processes, one arrival per time unit, mean burst \<open>b\<close>, context switch time
  \<open>c\<close> and quantum \<open>q\<close>.
\<close>

definition engine :: "int \<Rightarrow> real \<Rightarrow> real \<Rightarrow> duration \<Rightarrow> SchedulerDES" where
  "engine n b c q =
     \<lparr> num_processes = n, arrivals_per_time_unit = 1, avg_cpu_burst_time = b,
       context_switch_time = c, quantum = q, process_on_cpu = None, time = 0,
       events_queue = [], processes = [], store = [] \<rparr>"

text \<open>
  The engine \<open>engine 1 1 0 Infinite\<close> after a run with \<open>idle_dispatcher\<close>: the queue
  is empty and the only process is \<^verbatim>\<open>READY\<close>.
\<close>

definition stalled_engine :: SchedulerDES where
  "stalled_engine =
     \<lparr> num_processes = 1, arrivals_per_time_unit = 1, avg_cpu_burst_time = 1,
       context_switch_time = 0, quantum = Infinite, process_on_cpu = Some 0, time = 1,
       events_queue = [], processes = [0],
       store = [\<lparr> process_id = 0, arrival_time = 1, process_state = READY,
                  service_time = 1, remaining_time = 1, execution_times = [] \<rparr>] \<rparr>"

text \<open>
  Snapshots of the engine \<open>engine 1 3 1 (Finite 2)\<close> during a run on
  \<open>alternating_samples\<close>: its only process arrives at time 1 with six units of work.
\<close>

definition job :: "ProcessStates \<Rightarrow> real \<Rightarrow> (real \<times> real) list \<Rightarrow> Process" where
  "job st left intervals =
     \<lparr> process_id = 0, arrival_time = 1, process_state = st, service_time = 6,
       remaining_time = left, execution_times = intervals \<rparr>"

definition snapshot :: "nat option \<Rightarrow> real \<Rightarrow> Event list \<Rightarrow> Process \<Rightarrow> SchedulerDES" where
  "snapshot cpu now queue p =
     \<lparr> num_processes = 1, arrivals_per_time_unit = 1, avg_cpu_burst_time = 3,
       context_switch_time = 1, quantum = Finite 2, process_on_cpu = cpu, time = now,
       events_queue = queue, processes = [0], store = [p] \<rparr>"

definition arrival_event :: Event where
  "arrival_event = \<lparr> event_type = PROC_ARRIVES, event_time = 1, event_process_id = 0 \<rparr>"






section \<open>Running a process\<close>

text \<open>
  C3. For every process with remaining time \<open>r \<ge> 0\<close>, every positive requested
  duration (a finite \<open>d > 0\<close> or \<^verbatim>\<open>math.inf\<close>) and every current time \<open>t\<close>,
  \<^verbatim>\<open>run_for\<close> returns the minimum \<open>m\<close> of the duration and \<open>r\<close> (\<open>min d r\<close> for a
  finite \<open>d\<close>, \<open>r\<close> for \<^verbatim>\<open>math.inf\<close>), sets the remaining time to \<open>r - m\<close> and
  appends exactly the pair \<open>(t, t + m)\<close> to the execution intervals.
\<close>

theorem run_for_positive:
  "0 \<le> remaining_time p \<Longrightarrow> duration_positive q \<Longrightarrow>
     run_for p q t =
       (let m = (case q of Finite d \<Rightarrow> min d (remaining_time p) | Infinite \<Rightarrow> remaining_time p)
        in (m, p \<lparr> remaining_time := remaining_time p - m,
                   execution_times := execution_times p @ [(t, t + m)] \<rparr>))"
  by (cases q) (simp_all add: run_for_def min_def Let_def)

theorem run_for_positive_witness:
  "0 \<le> remaining_time sample_process \<and> duration_positive (Finite 2) \<and>
   duration_positive Infinite \<and>
   run_for sample_process (Finite 2) 3 =
     (2, sample_process \<lparr> remaining_time := 3, execution_times := [(3, 5)] \<rparr>) \<and>
   run_for sample_process Infinite 3 =
     (5, sample_process \<lparr> remaining_time := 0, execution_times := [(3, 8)] \<rparr>)"
  using run_for_positive [of sample_process "Finite 2" 3]
    run_for_positive [of sample_process Infinite 3]
  by (simp add: sample_process_def)

text \<open>With the infinite quantum of batch mode the process runs for all its remaining time.\<close>

lemma run_for_infinite:
  "run_for p Infinite t =
     (remaining_time p,
      p \<lparr> remaining_time := 0,
          execution_times := execution_times p @ [(t, t + remaining_time p)] \<rparr>)"
  by (simp add: run_for_def Let_def)

text \<open>
  C2, as the code has it. The claim is that a zero or negative requested duration makes
  \<^verbatim>\<open>run_for\<close> fail and leaves the process unchanged. \<^verbatim>\<open>run_for\<close> has no guard: at
  \<open>d = -1\<close> on a process with five units left it returns \<open>-1\<close>, the remaining time
  grows to six and the interval \<open>(2, 1)\<close> is recorded.
\<close>

theorem run_for_nonpositive_counterexample:
  "run_for sample_process (Finite (- 1)) 2 =
     (- 1, sample_process \<lparr> remaining_time := 6, execution_times := [(2, 1)] \<rparr>)"
  by (simp add: run_for_def sample_process_def)

text \<open>
  C2, amended. For every process with remaining time \<open>r \<ge> 0\<close> and every requested
  duration \<open>d \<le> 0\<close>, \<^verbatim>\<open>run_for(d, t)\<close> does not fail: it returns \<open>d\<close> unclamped, sets
  the remaining time to \<open>r - d\<close> and appends \<open>(t, t + d)\<close> to the execution intervals.
\<close>

theorem run_for_nonpositive:
  "d \<le> 0 \<Longrightarrow> 0 \<le> remaining_time p \<Longrightarrow>
     run_for p (Finite d) t =
       (d, p \<lparr> remaining_time := remaining_time p - d,
               execution_times := execution_times p @ [(t, t + d)] \<rparr>)"
  by (simp add: run_for_def)

theorem run_for_nonpositive_witness:
  "(0 :: real) \<le> 0 \<and> 0 \<le> remaining_time sample_process \<and>
   run_for sample_process (Finite 0) 2 =
     (0, sample_process \<lparr> remaining_time := 5, execution_times := [(2, 2)] \<rparr>)"
  using run_for_nonpositive [of 0 sample_process 2]
  by (simp add: sample_process_def)

text \<open>
  C10. For every process, every quantum and every current time, \<^verbatim>\<open>run_for\<close> changes
  only the remaining time and the execution intervals: the state, the id, the arrival
  time and the service time of the process are as before the call.
\<close>

theorem run_for_frame:
  "process_state (snd (run_for p q t)) = process_state p \<and>
   process_id (snd (run_for p q t)) = process_id p \<and>
   arrival_time (snd (run_for p q t)) = arrival_time p \<and>
   service_time (snd (run_for p q t)) = service_time p"
  by (simp add: run_for_def Let_def)

section \<open>Departure time\<close>

text \<open>
  C8, as the code has it. The claim is that \<^verbatim>\<open>departure_time\<close> of a
  \<^verbatim>\<open>TERMINATED\<close> process returns the end of its last execution interval. The state
  setter makes a process \<^verbatim>\<open>TERMINATED\<close> whatever it has run, and on a terminated
  process with no interval the index \<^verbatim>\<open>[-1]\<close> raises \<^verbatim>\<open>IndexError\<close>: nothing is
  returned.
\<close>

theorem departure_time_counterexample:
  "process_state unrun_process = TERMINATED \<and>
   execution_times unrun_process = [] \<and>
   departure_time unrun_process = Inl IndexError"
  by (simp add: departure_time_def unrun_process_def)

text \<open>
  C8, amended. For every process, \<^verbatim>\<open>departure_time\<close> fails with the
  \<^verbatim>\<open>ValueError\<close> of its guard whenever the process is not \<^verbatim>\<open>TERMINATED\<close>; for a
  \<^verbatim>\<open>TERMINATED\<close> process with at least one execution interval it returns the end
  time of the last one; for a \<^verbatim>\<open>TERMINATED\<close> process with no execution interval it
  fails with \<^verbatim>\<open>IndexError\<close>.
\<close>

theorem departure_time_spec:
  "(process_state p \<noteq> TERMINATED \<longrightarrow> departure_time p = Inl ValueError) \<and>
   (process_state p = TERMINATED \<and> execution_times p \<noteq> [] \<longrightarrow>
      departure_time p = Inr (snd (last (execution_times p)))) \<and>
   (process_state p = TERMINATED \<and> execution_times p = [] \<longrightarrow>
      departure_time p = Inl IndexError)"
  by (simp add: departure_time_def)

theorem departure_time_spec_witness:
  "process_state sample_process \<noteq> TERMINATED \<and>
   departure_time sample_process = Inl ValueError \<and>
   process_state finished_process = TERMINATED \<and> execution_times finished_process \<noteq> [] \<and>
   departure_time finished_process = Inr 6 \<and>
   process_state (finished_process \<lparr> execution_times := [] \<rparr>) = TERMINATED \<and>
   execution_times (finished_process \<lparr> execution_times := [] \<rparr>) = [] \<and>
   departure_time (finished_process \<lparr> execution_times := [] \<rparr>) = Inl IndexError"
  using departure_time_spec [of sample_process] departure_time_spec [of finished_process]
    departure_time_spec [of "finished_process \<lparr> execution_times := [] \<rparr>"]
  by (simp add: sample_process_def finished_process_def)

section \<open>The order of the event queue\<close>

text \<open>
  The binary search returns, on a sorted queue, the position after the last event that
  is not later than \<open>x\<close>.
\<close>

lemma bisect_right_spec:
  "sorted (map event_time a) \<Longrightarrow> lo \<le> hi \<Longrightarrow> hi \<le> length a \<Longrightarrow>
   (\<forall>i < lo. event_time (a ! i) \<le> event_time x) \<Longrightarrow>
   (\<forall>i. hi \<le> i \<and> i < length a \<longrightarrow> event_time x < event_time (a ! i)) \<Longrightarrow>
   lo \<le> bisect_right a x lo hi \<and> bisect_right a x lo hi \<le> hi \<and>
   (\<forall>i < bisect_right a x lo hi. event_time (a ! i) \<le> event_time x) \<and>
   (\<forall>i. bisect_right a x lo hi \<le> i \<and> i < length a \<longrightarrow> event_time x < event_time (a ! i))"
proof (induction a x lo hi rule: bisect_right.induct)
  case (1 a x lo hi)
  show ?case
  proof (cases "lo < hi")
    case False
    then have "bisect_right a x lo hi = lo" by (subst bisect_right.simps) simp
    with False "1.prems" show ?thesis by simp
  next
    case True
    define mid where "mid = (lo + hi) div 2"
    have mid: "lo \<le> mid" "mid < hi" using True by (simp_all add: mid_def)
    have nth_mono: "\<And>i j. i \<le> j \<Longrightarrow> j < length a \<Longrightarrow> event_time (a ! i) \<le> event_time (a ! j)"
      using "1.prems"(1) by (simp add: sorted_iff_nth_mono)
    show ?thesis
    proof (cases "Event_lt x (a ! mid)")
      case lt: True
      have up: "\<forall>i. mid \<le> i \<and> i < length a \<longrightarrow> event_time x < event_time (a ! i)"
      proof (intro allI impI)
        fix i assume "mid \<le> i \<and> i < length a"
        then have "event_time (a ! mid) \<le> event_time (a ! i)" using nth_mono by blast
        with lt show "event_time x < event_time (a ! i)" by (simp add: Event_lt_def)
      qed
      have ih: "lo \<le> bisect_right a x lo mid \<and> bisect_right a x lo mid \<le> mid \<and>
        (\<forall>i < bisect_right a x lo mid. event_time (a ! i) \<le> event_time x) \<and>
        (\<forall>i. bisect_right a x lo mid \<le> i \<and> i < length a \<longrightarrow> event_time x < event_time (a ! i))"
        using "1.IH"(1) [OF True mid_def lt "1.prems"(1) mid(1) _ "1.prems"(4) up]
          mid "1.prems"(3) by simp
      have eq: "bisect_right a x lo hi = bisect_right a x lo mid"
        using True lt by (subst bisect_right.simps) (simp add: mid_def Let_def)
      show ?thesis unfolding eq using ih mid by auto
    next
      case ge: False
      have low: "\<forall>i < mid + 1. event_time (a ! i) \<le> event_time x"
      proof (intro allI impI)
        fix i assume "i < mid + 1"
        then have "i \<le> mid" by simp
        moreover have "mid < length a" using mid "1.prems"(3) by simp
        ultimately have "event_time (a ! i) \<le> event_time (a ! mid)" using nth_mono by blast
        with ge show "event_time (a ! i) \<le> event_time x" by (simp add: Event_lt_def)
      qed
      have ih: "mid + 1 \<le> bisect_right a x (mid + 1) hi \<and> bisect_right a x (mid + 1) hi \<le> hi \<and>
        (\<forall>i < bisect_right a x (mid + 1) hi. event_time (a ! i) \<le> event_time x) \<and>
        (\<forall>i. bisect_right a x (mid + 1) hi \<le> i \<and> i < length a \<longrightarrow> event_time x < event_time (a ! i))"
        using "1.IH"(2) [OF True mid_def ge "1.prems"(1) _ "1.prems"(3) low "1.prems"(5)]
          mid by simp
      have eq: "bisect_right a x lo hi = bisect_right a x (mid + 1) hi"
        using True ge by (subst bisect_right.simps) (simp add: mid_def Let_def)
      show ?thesis unfolding eq using ih mid by auto
    qed
  qed
qed

lemma insort_right_sorted:
  assumes "scan_nondecreasing a"
  shows "scan_nondecreasing (insort_right a x)"
proof -
  define k where "k = bisect_right a x 0 (length a)"
  have srt: "sorted (map event_time a)" using assms by (simp add: scan_nondecreasing_def)
  have spec: "k \<le> length a"
    "\<forall>i < k. event_time (a ! i) \<le> event_time x"
    "\<forall>i. k \<le> i \<and> i < length a \<longrightarrow> event_time x < event_time (a ! i)"
    using bisect_right_spec [OF srt, of 0 "length a" x] by (simp_all add: k_def)
  have a: "a = take k a @ drop k a" by simp
  have t: "sorted (map event_time (take k a))" using srt by (simp add: sorted_wrt_take take_map [symmetric])
  have d: "sorted (map event_time (drop k a))" using srt by (simp add: sorted_wrt_drop drop_map [symmetric])
  have le: "\<forall>e \<in> set (take k a). event_time e \<le> event_time x"
    using spec by (auto simp: in_set_conv_nth)
  have ge: "\<forall>e \<in> set (drop k a). event_time x \<le> event_time e"
  proof
    fix e assume "e \<in> set (drop k a)"
    then obtain j where "j < length a - k" "e = a ! (k + j)" by (auto simp: in_set_conv_nth)
    then show "event_time x \<le> event_time e" using spec(3) by (simp add: less_imp_le)
  qed
  have "sorted (map event_time (take k a) @ [event_time x] @ map event_time (drop k a))"
    using t d le ge by (auto simp: sorted_append intro: order_trans)
  then show ?thesis unfolding insort_right_def scan_nondecreasing_def Let_def k_def [symmetric] by simp
qed

lemma queue_apply_sorted:
  "scan_nondecreasing q \<Longrightarrow> queue_apply operation q = Inr q' \<Longrightarrow> scan_nondecreasing q'"
  by (cases operation)
     (auto simp: queue_apply_def popleft_def scan_nondecreasing_def insort_right_sorted [unfolded scan_nondecreasing_def]
           split: list.splits)

text \<open>On a sorted queue \<^verbatim>\<open>popleft\<close> returns an event that no queued event precedes.\<close>

lemma popleft_earliest:
  "scan_nondecreasing q \<Longrightarrow> popleft q = Inr (e, q') \<Longrightarrow>
     \<forall>e' \<in> set q. event_time e \<le> event_time e'"
  by (auto simp: popleft_def scan_nondecreasing_def split: list.splits)

text \<open>
  C4. For every sequence of insertions and removals of the earliest element, run from a
  queue whose scan is non-decreasing (the empty queue of a new run is one), the scan of
  the queue from front to back is non-decreasing in the event time after each
  operation.
\<close>

theorem queue_order_invariant:
  "scan_nondecreasing q \<Longrightarrow> \<forall>q' \<in> set (queue_history q ops). scan_nondecreasing q'"
proof (induction ops arbitrary: q)
  case Nil
  then show ?case by simp
next
  case (Cons operation ops)
  show ?case
  proof (cases "queue_apply operation q")
    case (Inl e)
    then show ?thesis by simp
  next
    case (Inr q1)
    then have "scan_nondecreasing q1" using Cons.prems queue_apply_sorted by blast
    with Cons.IH [of q1] Inr show ?thesis by simp
  qed
qed

theorem queue_order_invariant_witness:
  "scan_nondecreasing [] \<and>
   queue_history [] [Insert (event_at 3), Insert (event_at 1), PopEarliest, Insert (event_at 2)]
     = [[event_at 3], [event_at 1, event_at 3], [event_at 3], [event_at 2, event_at 3]] \<and>
   list_all scan_nondecreasing
     (queue_history [] [Insert (event_at 3), Insert (event_at 1), PopEarliest, Insert (event_at 2)])"
  using queue_order_invariant
    [of "[]" "[Insert (event_at 3), Insert (event_at 1), PopEarliest, Insert (event_at 2)]"]
  by (simp add: scan_nondecreasing_def queue_apply_def popleft_def insort_right_def
        bisect_right.simps event_at_def Event_lt_def)

section \<open>Workload generation with a zero mean burst\<close>

text \<open>
  With \<^verbatim>\<open>avg_cpu_burst_time = 0\<close> every service time drawn is \<open>0\<close> times a variate,
  and \<^verbatim>\<open>Process.__init__\<close> refuses a service time that is not positive: the first
  iteration of the generation loop raises.
\<close>

lemma generate_zero_burst:
  "avg_cpu_burst_time self = 0 \<Longrightarrow> 0 < num_processes self \<Longrightarrow>
     generate_and_init samples self = Inl ValueError"
proof -
  assume b: "avg_cpu_burst_time self = 0" and n: "0 < num_processes self"
  from n have "[0 ..< nat (num_processes self)] = 0 # [Suc 0 ..< nat (num_processes self)]"
    by (simp add: upt_conv_Cons)
  then show ?thesis using b
    by (simp add: generate_and_init_def reset_def Process_init_def Let_def)
qed

text \<open>
  The engine built by \<^verbatim>\<open>SchedulerDES\<close> from \<open>(2, 1, 0, 0, inf)\<close>: the constructor
  accepts it, and \<^verbatim>\<open>generate_and_init\<close> on it raises \<^verbatim>\<open>ValueError\<close>.
\<close>

lemma zero_burst_evaluation:
  "SchedulerDES_init [] 2 1 0 0 Infinite = Inr (engine 2 0 0 Infinite) \<and>
   generate_and_init unit_samples (engine 2 0 0 Infinite) = Inl ValueError"
  using generate_zero_burst [of "engine 2 0 0 Infinite" unit_samples]
  by (simp add: SchedulerDES_init_def engine_def)

text \<open>
  C7, what the code does where the claim expects a workload of instantaneous bursts.
  The guard of the constructor admits \<^verbatim>\<open>avg_cpu_burst_time = 0\<close> (\<^verbatim>\<open>>= 0.0\<close>, under
  a message that says \<^verbatim>\<open>> 0\<close>), and the guard of \<^verbatim>\<open>Process.__init__\<close> refuses every
  service time then drawn. So for every valid setting of the other parameters the
  configuration is accepted and \<^verbatim>\<open>generate_and_init\<close> raises \<^verbatim>\<open>ValueError\<close> at its
  first process, whatever the generator draws: a configuration that the engine accepts
  can never be generated.
\<close>

theorem zero_burst_generation_fails:
  "0 < n \<Longrightarrow> 0 < a \<Longrightarrow> 0 \<le> c \<Longrightarrow> duration_positive q \<Longrightarrow>
     (\<exists>s. SchedulerDES_init objs n a 0 c q = Inr s \<and>
          generate_and_init samples s = Inl ValueError)"
  by (simp add: SchedulerDES_init_def generate_zero_burst)

theorem zero_burst_generation_fails_witness:
  "(0::int) < 2 \<and> (0::real) < 1 \<and> (0::real) \<le> 0 \<and> duration_positive Infinite \<and>
   (\<exists>s. SchedulerDES_init [] 2 1 0 0 Infinite = Inr s \<and>
        generate_and_init unit_samples s = Inl ValueError)"
  using zero_burst_generation_fails [of 2 1 0 Infinite "[]" unit_samples]
  by simp

section \<open>The end of the loop\<close>

text \<open>
  C1, as the code has it. The claim is that the run fails when the queue becomes empty
  while a process is not \<^verbatim>\<open>TERMINATED\<close>. With a dispatcher that reports
  \<^verbatim>\<open>PROC_CPU_DONE\<close> and leaves its process \<^verbatim>\<open>READY\<close>, the run of one process ends
  normally, with an empty queue and that process still \<^verbatim>\<open>READY\<close>.
\<close>

theorem queue_underflow_counterexample:
  "run unit_samples 5 FCFS_scheduler_func idle_dispatcher (engine 1 1 0 Infinite) =
     Some (Inr stalled_engine) \<and>
   events_queue stalled_engine = [] \<and>
   map process_state (store stalled_engine) = [READY]"
  by code_simp

text \<open>
  C1, amended. Whenever the event queue is empty at the test of the loop, the loop ends
  normally and leaves the engine as it is, whatever the states of the processes: the
  run makes no check of the process states.
\<close>

theorem run_loop_empty_queue:
  "events_queue self = [] \<Longrightarrow> run_loop n sched disp self = Some (Inr self)"
  by (subst run_loop.simps) simp

theorem run_loop_empty_queue_witness:
  "events_queue stalled_engine = [] \<and>
   map process_state (store stalled_engine) = [READY] \<and>
   run_loop 3 FCFS_scheduler_func idle_dispatcher stalled_engine = Some (Inr stalled_engine)"
proof -
  have e: "events_queue stalled_engine = []" by (simp add: stalled_engine_def)
  have p: "map process_state (store stalled_engine) = [READY]" by (simp add: stalled_engine_def)
  from run_loop_empty_queue [OF e, of 3 FCFS_scheduler_func idle_dispatcher] e p
  show ?thesis by blast
qed

section \<open>The context switch\<close>

text \<open>
  What the generation and the first stage of an iteration leave untouched, and what a
  successful selection went through.
\<close>

lemma generate_loop_cpu:
  "generate_loop samples is t self = Inr g \<Longrightarrow>
     process_on_cpu g = process_on_cpu self \<and> context_switch_time g = context_switch_time self"
proof (induction "is" arbitrary: t self)
  case Nil
  then show ?case by simp
next
  case (Cons i rest)
  then show ?case
    by (fastforce simp: Let_def split: sum.splits)
qed

lemma generate_and_init_cpu:
  "generate_and_init samples self = Inr g \<Longrightarrow>
     process_on_cpu g = None \<and> context_switch_time g = context_switch_time self"
  using generate_loop_cpu [of samples _ 0 "reset self" g]
  by (simp add: generate_and_init_def reset_def)

lemma advance_frame:
  "advance self = Inr (ev, s) \<Longrightarrow>
     process_on_cpu s = process_on_cpu self \<and> context_switch_time s = context_switch_time self \<and>
     time self \<le> time s"
  by (auto simp: advance_def popleft_def update_process_states_def Let_def
           split: list.splits sum.splits if_splits)

lemma select_cases:
  "select sched self = Inr (r, s) \<Longrightarrow>
     \<exists>ev a. advance self = Inr (ev, a) \<and> sched a ev = Inr (Some r, s)"
  by (auto simp: select_def split: sum.splits option.splits if_splits prod.splits)

lemma FCFS_keeps_cpu: "scheduler_keeps_cpu FCFS_scheduler_func"
  by (auto simp: scheduler_keeps_cpu_def FCFS_scheduler_func_def Let_def split: if_splits)

text \<open>
  C6, as the code has it. The claim is that the first CPU assignment of a run always
  pays the context switch time. The scheduler hook is a method of the engine; one that
  records its choice in \<^verbatim>\<open>process_on_cpu\<close> itself makes the comparison of line 194
  false, and the first assignment is free: with a context switch time of 1 the clock is
  1 before and 1 after the context switch stage.
\<close>

theorem context_switch_counterexample:
  "generate_and_init alternating_samples (engine 1 3 1 (Finite 2)) =
     Inr (snapshot None 0 [arrival_event] (job NEW 6 [])) \<and>
   select grabbing_scheduler_func (snapshot None 0 [arrival_event] (job NEW 6 [])) =
     Inr (0, snapshot (Some 0) 1 [] (job READY 6 [])) \<and>
   context_switch_time (snapshot (Some 0) 1 [] (job READY 6 [])) = 1 \<and>
   time (snapshot (Some 0) 1 [] (job READY 6 [])) = 1 \<and>
   time (context_switch 0 (snapshot (Some 0) 1 [] (job READY 6 []))) = 1"
  by code_simp

text \<open>
  C6, amended. In every iteration in which a process \<open>r\<close> is selected, the dispatcher
  runs on the engine after \<open>context_switch\<close>, whose clock is advanced by the context
  switch time exactly when \<open>r\<close> is not the process on the CPU as the scheduler hook
  left it, and which records \<open>r\<close> as the process on the CPU. After
  \<^verbatim>\<open>generate_and_init\<close> the process on the CPU is \<^verbatim>\<open>None\<close>, so the first CPU
  assignment of a run pays the context switch time provided the scheduler hook leaves
  \<^verbatim>\<open>process_on_cpu\<close> to the engine.
\<close>

theorem context_switch_cost:
  "(select sched self = Inr (r, s) \<longrightarrow>
      iteration sched disp self = dispatch disp r (context_switch r s) \<and>
      time (context_switch r s) =
        (if Some r \<noteq> process_on_cpu s then time s + context_switch_time s else time s) \<and>
      process_on_cpu (context_switch r s) = Some r) \<and>
   (generate_and_init samples self0 = Inr g \<and> scheduler_keeps_cpu sched \<and>
    select sched g = Inr (r', s') \<longrightarrow>
      time (context_switch r' s') = time s' + context_switch_time s')"
proof (rule conjI; rule impI)
  assume "select sched self = Inr (r, s)"
  then show "iteration sched disp self = dispatch disp r (context_switch r s) \<and>
      time (context_switch r s) =
        (if Some r \<noteq> process_on_cpu s then time s + context_switch_time s else time s) \<and>
      process_on_cpu (context_switch r s) = Some r"
    by (auto simp: iteration_def context_switch_def)
next
  assume a: "generate_and_init samples self0 = Inr g \<and> scheduler_keeps_cpu sched \<and>
    select sched g = Inr (r', s')"
  then obtain ev st where adv: "advance g = Inr (ev, st)" and sc: "sched st ev = Inr (Some r', s')"
    using select_cases by blast
  have "process_on_cpu g = None" using a generate_and_init_cpu by blast
  then have "process_on_cpu st = None" using adv advance_frame by fastforce
  then have "process_on_cpu s' = None" using a sc by (auto simp: scheduler_keeps_cpu_def)
  then show "time (context_switch r' s') = time s' + context_switch_time s'"
    by (simp add: context_switch_def)
qed

theorem context_switch_cost_witness:
  "generate_and_init alternating_samples (engine 1 3 1 (Finite 2)) =
     Inr (snapshot None 0 [arrival_event] (job NEW 6 [])) \<and>
   scheduler_keeps_cpu (FCFS_scheduler_func :: unit scheduler) \<and>
   select FCFS_scheduler_func (snapshot None 0 [arrival_event] (job NEW 6 [])) =
     Inr (0, snapshot None 1 [] (job READY 6 [])) \<and>
   iteration FCFS_scheduler_func quantum_dispatcher (snapshot None 0 [arrival_event] (job NEW 6 [])) =
     dispatch quantum_dispatcher 0 (context_switch 0 (snapshot None 1 [] (job READY 6 []))) \<and>
   time (context_switch 0 (snapshot None 1 [] (job READY 6 []))) = 2 \<and>
   process_on_cpu (context_switch 0 (snapshot None 1 [] (job READY 6 []))) = Some 0"
proof -
  have g: "generate_and_init alternating_samples (engine 1 3 1 (Finite 2)) =
     Inr (snapshot None 0 [arrival_event] (job NEW 6 []))" by code_simp
  have sel: "select FCFS_scheduler_func (snapshot None 0 [arrival_event] (job NEW 6 [])) =
     Inr (0, snapshot None 1 [] (job READY 6 []))" by code_simp
  have t: "time (snapshot None 1 [] (job READY 6 [])) +
           context_switch_time (snapshot None 1 [] (job READY 6 [])) = 2"
    by (simp add: snapshot_def)
  have c: "process_on_cpu (snapshot None 1 [] (job READY 6 [])) = None"
    by (simp add: snapshot_def)
  from context_switch_cost
    [of FCFS_scheduler_func "snapshot None 0 [arrival_event] (job NEW 6 [])" 0
        "snapshot None 1 [] (job READY 6 [])" quantum_dispatcher alternating_samples
        "engine 1 3 1 (Finite 2)" "snapshot None 0 [arrival_event] (job NEW 6 [])" 0
        "snapshot None 1 [] (job READY 6 [])"]
    g sel t c FCFS_keeps_cpu
  show ?thesis by simp
qed

text \<open>
  The second iteration of the same run selects the process that holds the CPU, and the
  clock stays where it is.
\<close>

lemma context_switch_same_process:
  "select FCFS_scheduler_func
     (snapshot (Some 0) 4 [event_at 4] (job READY 4 [(2, 4)])) =
     Inr (0, snapshot (Some 0) 4 [] (job READY 4 [(2, 4)])) \<and>
   context_switch 0 (snapshot (Some 0) 4 [] (job READY 4 [(2, 4)])) =
     snapshot (Some 0) 4 [] (job READY 4 [(2, 4)])"
  by code_simp

section \<open>The clock\<close>

text \<open>
  Under the clock contract an iteration does not move the clock back, and it keeps the
  context switch time non-negative.
\<close>

lemma context_switch_clock:
  "0 \<le> context_switch_time s \<Longrightarrow>
     time s \<le> time (context_switch r s) \<and>
     context_switch_time (context_switch r s) = context_switch_time s"
  by (simp add: context_switch_def)

lemma dispatch_clock:
  assumes "clock_contract sched disp" "0 \<le> context_switch_time s" "dispatch disp r s = Inr s'"
  shows "time s \<le> time s' \<and> 0 \<le> context_switch_time s'"
proof -
  from assms(3) obtain ev s1 where d: "disp s r = Inr (Some ev, s1)"
    and s': "s' = (if event_type ev \<noteq> PROC_CPU_DONE
                then s1 \<lparr> events_queue := insort_right (events_queue s1) ev \<rparr>
                else s1) \<lparr> time := event_time ev \<rparr>"
    by (auto simp: dispatch_def split: sum.splits option.splits prod.splits)
  from assms(1) d have "time s \<le> event_time ev"
    and "0 \<le> context_switch_time s \<longrightarrow> 0 \<le> context_switch_time s1"
    unfolding clock_contract_def by blast+
  with assms(2) s' show ?thesis by simp
qed

lemma iteration_clock:
  assumes c: "clock_contract sched disp" and n: "0 \<le> context_switch_time self"
    and it: "iteration sched disp self = Inr s'"
  shows "time self \<le> time s' \<and> 0 \<le> context_switch_time s'"
proof -
  from it obtain r s where sel: "select sched self = Inr (r, s)"
    and d: "dispatch disp r (context_switch r s) = Inr s'"
    by (auto simp: iteration_def split: sum.splits prod.splits)
  from sel obtain ev a where adv: "advance self = Inr (ev, a)" and sc: "sched a ev = Inr (Some r, s)"
    using select_cases by blast
  from adv have a: "time self \<le> time a" "context_switch_time a = context_switch_time self"
    using advance_frame by blast+
  from c sc have "time a \<le> time s" and "0 \<le> context_switch_time a \<longrightarrow> 0 \<le> context_switch_time s"
    unfolding clock_contract_def by blast+
  with a n have s: "time self \<le> time s" "0 \<le> context_switch_time s" by simp_all
  from context_switch_clock [OF s(2), of r]
  have cs: "time s \<le> time (context_switch r s)" "0 \<le> context_switch_time (context_switch r s)"
    using s(2) by simp_all
  from dispatch_clock [OF c cs(2) d] s cs show ?thesis by simp
qed

lemma loop_states_clock:
  "clock_contract sched disp \<Longrightarrow> 0 \<le> context_switch_time self \<Longrightarrow>
     sorted (clock_trace (loop_states n sched disp self)) \<and>
     (\<forall>t \<in> set (clock_trace (loop_states n sched disp self)). time self \<le> t)"
proof (induction n arbitrary: self)
  case 0
  then show ?case by (simp add: clock_trace_def)
next
  case (Suc m)
  show ?case
  proof (cases "events_queue self = []")
    case True
    then show ?thesis by (simp add: clock_trace_def)
  next
    case False
    show ?thesis
    proof (cases "iteration sched disp self")
      case (Inl e)
      with False show ?thesis by (simp add: clock_trace_def)
    next
      case (Inr s')
      from iteration_clock [OF Suc.prems(1) Suc.prems(2) Inr]
      have st: "time self \<le> time s'" "0 \<le> context_switch_time s'" by simp_all
      from Suc.IH [OF Suc.prems(1) st(2)]
      have ih: "sorted (clock_trace (loop_states m sched disp s'))"
        "\<forall>t \<in> set (clock_trace (loop_states m sched disp s')). time s' \<le> t" by simp_all
      from ih(2) st(1) have "\<forall>t \<in> set (clock_trace (loop_states m sched disp s')). time self \<le> t"
        by auto
      with ih(1) False Inr show ?thesis by (simp add: clock_trace_def)
    qed
  qed
qed

lemma quantum_policy_contract: "clock_contract FCFS_scheduler_func quantum_dispatcher"
  by (auto simp: clock_contract_def FCFS_scheduler_func_def quantum_dispatcher_def Let_def
           split: if_splits prod.splits)

text \<open>
  C5, as the code has it. The claim is that the clock at the start of the iterations
  never decreases, whatever the policy. Line 205 assigns the time of the dispatcher's
  event to the clock without comparing them: with \<open>rewinding_dispatcher\<close> the clock
  is 0, then 5, then 0 at the start of the first three iterations.
\<close>

theorem clock_rewind_counterexample:
  "clock_trace (run_states unit_samples 3 FCFS_scheduler_func rewinding_dispatcher
      (engine 1 1 0 Infinite)) = [0, 5, 0]"
  by code_simp

text \<open>
  C5, amended. Popping an event never moves the clock back. If the policy keeps the
  clock contract (the scheduler hook does not move the clock back, the dispatcher's
  event is not earlier than the clock at the call, the context switch time stays
  non-negative) and the context switch time is non-negative at the start, then the
  clock observed at the start of each iteration of a run is non-decreasing.
\<close>

theorem clock_monotone:
  "(advance self = Inr (ev, s) \<longrightarrow> time self \<le> time s) \<and>
   (clock_contract sched disp \<and> 0 \<le> context_switch_time self0 \<longrightarrow>
      sorted (clock_trace (run_states samples n sched disp self0)))"
proof (rule conjI; rule impI)
  assume "advance self = Inr (ev, s)"
  then show "time self \<le> time s" using advance_frame by blast
next
  assume a: "clock_contract sched disp \<and> 0 \<le> context_switch_time self0"
  show "sorted (clock_trace (run_states samples n sched disp self0))"
  proof (cases "generate_and_init samples self0")
    case (Inl e)
    then show ?thesis by (simp add: run_states_def clock_trace_def)
  next
    case (Inr g)
    then have "0 \<le> context_switch_time g" using a generate_and_init_cpu by fastforce
    with a Inr loop_states_clock [of sched disp g n] show ?thesis by (simp add: run_states_def)
  qed
qed

theorem clock_monotone_witness:
  "advance (snapshot None 0 [arrival_event] (job NEW 6 [])) =
     Inr (arrival_event, snapshot None 1 [] (job READY 6 [])) \<and>
   time (snapshot None 0 [arrival_event] (job NEW 6 [])) \<le> time (snapshot None 1 [] (job READY 6 [])) \<and>
   clock_contract (FCFS_scheduler_func :: unit scheduler) quantum_dispatcher \<and>
   0 \<le> context_switch_time (engine 2 3 1 (Finite 2)) \<and>
   clock_trace (run_states alternating_samples 10 FCFS_scheduler_func quantum_dispatcher
                  (engine 2 3 1 (Finite 2))) = [0, 4, 7, 10, 13, 16] \<and>
   sorted (clock_trace (run_states alternating_samples 10 FCFS_scheduler_func quantum_dispatcher
                  (engine 2 3 1 (Finite 2))))"
proof -
  have a: "advance (snapshot None 0 [arrival_event] (job NEW 6 [])) =
     Inr (arrival_event, snapshot None 1 [] (job READY 6 []))" by code_simp
  have n: "0 \<le> context_switch_time (engine 2 3 1 (Finite 2))" by (simp add: engine_def)
  have tr: "clock_trace (run_states alternating_samples 10 FCFS_scheduler_func quantum_dispatcher
                  (engine 2 3 1 (Finite 2))) = [0, 4, 7, 10, 13, 16]" by code_simp
  from clock_monotone
    [of "snapshot None 0 [arrival_event] (job NEW 6 [])" arrival_event
        "snapshot None 1 [] (job READY 6 [])" FCFS_scheduler_func quantum_dispatcher
        "engine 2 3 1 (Finite 2)" alternating_samples 10]
    a n quantum_policy_contract
  have "time (snapshot None 0 [arrival_event] (job NEW 6 [])) \<le> time (snapshot None 1 [] (job READY 6 []))"
    and "sorted (clock_trace (run_states alternating_samples 10 FCFS_scheduler_func quantum_dispatcher
                  (engine 2 3 1 (Finite 2))))" by blast+
  with a n tr quantum_policy_contract show ?thesis by blast
qed

section \<open>Repeating a run\<close>

text \<open>
  Every stage of an iteration commutes with \<open>relocate\<close>: an engine whose store holds
  older objects before its own goes through the same steps, with every reference moved.
\<close>

lemma relocate_fields [simp]:
  "time (relocate old s) = time s"
  "events_queue (relocate old s) = events_queue s"
  "store (relocate old s) = old @ store s"
  "processes (relocate old s) = map (\<lambda>r. length old + r) (processes s)"
  "process_on_cpu (relocate old s) = map_option (\<lambda>r. length old + r) (process_on_cpu s)"
  "context_switch_time (relocate old s) = context_switch_time s"
  "num_processes (relocate old s) = num_processes s"
  "arrivals_per_time_unit (relocate old s) = arrivals_per_time_unit s"
  "avg_cpu_burst_time (relocate old s) = avg_cpu_burst_time s"
  "quantum (relocate old s) = quantum s"
  by (simp_all add: relocate_def)

lemma relocate_updates [simp]:
  "(relocate old s) \<lparr> time := t \<rparr> = relocate old (s \<lparr> time := t \<rparr>)"
  "(relocate old s) \<lparr> events_queue := q \<rparr> = relocate old (s \<lparr> events_queue := q \<rparr>)"
  by (simp_all add: relocate_def)
























end
